theory Spec2Isabelle
  imports Complex_Main
begin

section \<open>JavaScript numbers\<close>

text \<open>
  The scrubber (\<^verbatim>\<open>src/components/WaveformScrubber.tsx\<close>) computes with the \<^verbatim>\<open>number\<close>
  type of TypeScript. A \<^verbatim>\<open>number\<close> is a finite double, one of the two infinities, or NaN.
  Finite doubles are idealised as reals: rounding, overflow and the sign of zero are not
  modelled (every zero is the positive zero). What is modelled is everything the widget's
  arithmetic can do with a division by zero, an infinity or a NaN, since HOL's own
  \<open>x / 0 = 0\<close> is not what the program computes.
\<close>

datatype number = Fin real | PInf | NInf | NaN

text \<open>The infinity a non-zero finite value turns into, by its sign; NaN for zero.\<close>

definition inf_by_sign :: "real \<Rightarrow> number" where
  "inf_by_sign x = (if x = 0 then NaN else if 0 < x then PInf else NInf)"

fun js_add :: "number \<Rightarrow> number \<Rightarrow> number" where
  "js_add (Fin x) (Fin y) = Fin (x + y)"
| "js_add NaN _ = NaN"
| "js_add _ NaN = NaN"
| "js_add PInf NInf = NaN"
| "js_add NInf PInf = NaN"
| "js_add PInf _ = PInf"
| "js_add _ PInf = PInf"
| "js_add NInf _ = NInf"
| "js_add _ NInf = NInf"

fun js_neg :: "number \<Rightarrow> number" where
  "js_neg (Fin x) = Fin (- x)"
| "js_neg PInf = NInf"
| "js_neg NInf = PInf"
| "js_neg NaN = NaN"

definition js_sub :: "number \<Rightarrow> number \<Rightarrow> number" where
  "js_sub a b = js_add a (js_neg b)"

fun js_mul :: "number \<Rightarrow> number \<Rightarrow> number" where
  "js_mul (Fin x) (Fin y) = Fin (x * y)"
| "js_mul NaN _ = NaN"
| "js_mul _ NaN = NaN"
| "js_mul PInf (Fin y) = inf_by_sign y"
| "js_mul NInf (Fin y) = inf_by_sign (- y)"
| "js_mul (Fin x) PInf = inf_by_sign x"
| "js_mul (Fin x) NInf = inf_by_sign (- x)"
| "js_mul PInf PInf = PInf"
| "js_mul NInf NInf = PInf"
| "js_mul PInf NInf = NInf"
| "js_mul NInf PInf = NInf"

fun js_div :: "number \<Rightarrow> number \<Rightarrow> number" where
  "js_div (Fin x) (Fin y) = (if y = 0 then inf_by_sign x else Fin (x / y))"
| "js_div NaN _ = NaN"
| "js_div _ NaN = NaN"
| "js_div (Fin x) _ = Fin 0"
| "js_div PInf (Fin y) = (if 0 \<le> y then PInf else NInf)"
| "js_div NInf (Fin y) = (if 0 \<le> y then NInf else PInf)"
| "js_div _ _ = NaN"

text \<open>Rounding towards zero, as the remainder operator \<^verbatim>\<open>%\<close> does with the quotient.\<close>

definition trunc :: "real \<Rightarrow> int" where
  "trunc q = (if 0 \<le> q then \<lfloor>q\<rfloor> else \<lceil>q\<rceil>)"

fun js_rem :: "number \<Rightarrow> number \<Rightarrow> number" where
  "js_rem (Fin x) (Fin y) = (if y = 0 then NaN else Fin (x - y * of_int (trunc (x / y))))"
| "js_rem NaN _ = NaN"
| "js_rem _ NaN = NaN"
| "js_rem (Fin x) _ = Fin x"
| "js_rem _ _ = NaN"

text \<open>Comparisons: every comparison with NaN is false.\<close>

fun js_lt :: "number \<Rightarrow> number \<Rightarrow> bool" where
  "js_lt (Fin x) (Fin y) = (x < y)"
| "js_lt NaN _ = False"
| "js_lt _ NaN = False"
| "js_lt _ NInf = False"
| "js_lt PInf _ = False"
| "js_lt _ _ = True"

fun js_le :: "number \<Rightarrow> number \<Rightarrow> bool" where
  "js_le (Fin x) (Fin y) = (x \<le> y)"
| "js_le NaN _ = False"
| "js_le _ NaN = False"
| "js_le NInf _ = True"
| "js_le _ PInf = True"
| "js_le _ _ = False"

definition js_gt :: "number \<Rightarrow> number \<Rightarrow> bool" where
  "js_gt a b = js_lt b a"

definition js_ge :: "number \<Rightarrow> number \<Rightarrow> bool" where
  "js_ge a b = js_le b a"

text \<open>\<^verbatim>\<open>Math.min\<close>, \<^verbatim>\<open>Math.max\<close>: NaN as soon as one argument is NaN.\<close>

fun Math_min :: "number \<Rightarrow> number \<Rightarrow> number" where
  "Math_min (Fin x) (Fin y) = Fin (min x y)"
| "Math_min NaN _ = NaN"
| "Math_min _ NaN = NaN"
| "Math_min NInf _ = NInf"
| "Math_min _ NInf = NInf"
| "Math_min PInf b = b"
| "Math_min a PInf = a"

fun Math_max :: "number \<Rightarrow> number \<Rightarrow> number" where
  "Math_max (Fin x) (Fin y) = Fin (max x y)"
| "Math_max NaN _ = NaN"
| "Math_max _ NaN = NaN"
| "Math_max PInf _ = PInf"
| "Math_max _ PInf = PInf"
| "Math_max NInf b = b"
| "Math_max a NInf = a"

fun Math_floor :: "number \<Rightarrow> number" where
  "Math_floor (Fin x) = Fin (of_int \<lfloor>x\<rfloor>)"
| "Math_floor a = a"

text \<open>\<^verbatim>\<open>!n\<close> is true for zero and NaN; \<^verbatim>\<open>isNaN(n)\<close> for NaN.\<close>

definition js_not :: "number \<Rightarrow> bool" where
  "js_not n = (n = Fin 0 \<or> n = NaN)"

definition isNaN :: "number \<Rightarrow> bool" where
  "isNaN n = (n = NaN)"

subsection \<open>Numbers as strings\<close>

definition digit_char :: "nat \<Rightarrow> char" where
  "digit_char d = ''0123456789'' ! (d mod 10)"

fun digits :: "nat \<Rightarrow> string" where
  "digits n = (if n < 10 then [digit_char n] else digits (n div 10) @ [digit_char (n mod 10)])"

definition int_string :: "int \<Rightarrow> string" where
  "int_string i = (if i < 0 then CHR ''-'' # digits (nat (- i)) else digits (nat i))"

text \<open>
  \<^verbatim>\<open>Number.prototype.toString\<close>, on the values \<^verbatim>\<open>formatTime\<close> applies it to: the results
  of \<^verbatim>\<open>Math.floor\<close>. An integer below \<open>10\<^sup>2\<^sup>1\<close> in magnitude prints as its decimal digits.
  Larger values print in exponent notation with the shortest digits that read back as the
  same double, which depends on the rounding this model leaves out; so do fractions. For
  them the model gives no string (\<open>None\<close>).
\<close>

fun toString :: "number \<Rightarrow> string option" where
  "toString NaN = Some ''NaN''"
| "toString PInf = Some ''Infinity''"
| "toString NInf = Some ''-Infinity''"
| "toString (Fin x) =
     (if of_int \<lfloor>x\<rfloor> = x \<and> \<bar>x\<bar> < 10 ^ 21 then Some (int_string \<lfloor>x\<rfloor>) else None)"

text \<open>\<^verbatim>\<open>s.padStart(n, c)\<close> with a one-character filler.\<close>

definition padStart :: "nat \<Rightarrow> char \<Rightarrow> string \<Rightarrow> string" where
  "padStart n c s = replicate (n - length s) c @ s"

section \<open>Time labels\<close>

text \<open>
  \<^verbatim>\<open>formatTime\<close> (lines 262-267):
  \<^verbatim>\<open>
  if (!seconds || isNaN(seconds)) return '0:00';
  const mins = Math.floor(seconds / 60);
  const secs = Math.floor(seconds % 60);
  return `${mins}:${secs.toString().padStart(2, '0')}`;
  \<close>
\<close>

definition formatTime :: "number \<Rightarrow> string option" where
  "formatTime seconds =
     (if js_not seconds \<or> isNaN seconds then Some ''0:00''
      else
        let mins = Math_floor (js_div seconds (Fin 60));
            secs = Math_floor (js_rem seconds (Fin 60))
        in case (toString mins, toString secs) of
             (Some m, Some s) \<Rightarrow> Some (m @ '':'' @ padStart 2 (CHR ''0'') s)
           | _ \<Rightarrow> None)"

section \<open>WaveformModel\<close>

text \<open>
  \<^verbatim>\<open>generateWaveform\<close> (lines 28-62) draws from \<^verbatim>\<open>Math.random()\<close>, which returns a
  value in \<open>[0, 1)\<close> at every call. The model reads the draws from a sequence
  \<open>rnd :: nat \<Rightarrow> real\<close> and threads the number \<open>k\<close> of draws made so far: an iteration
  makes two draws, or three when the second one is below \<open>0.05\<close>.
  The amplitudes are finite, so they are reals.
\<close>

definition random_source :: "(nat \<Rightarrow> real) \<Rightarrow> bool" where
  "random_source rnd = (\<forall>k. 0 \<le> rnd k \<and> rnd k < 1)"

text \<open>
  The body of the loop (lines 34-56) for bar \<open>i\<close> of \<open>bars\<close>, entered after \<open>k\<close> draws:
  the amplitude it pushes and the number of draws after it.
\<close>

definition bar_amplitude :: "(nat \<Rightarrow> real) \<Rightarrow> int \<Rightarrow> int \<Rightarrow> nat \<Rightarrow> real \<times> nat" where
  "bar_amplitude rnd bars i k =
     (let position = real_of_int i / real_of_int bars;
          wave1 = sin (position * pi * 8) * 0.4;
          wave2 = sin (position * pi * 16) * 0.2;
          wave3 = sin (position * pi * 32) * 0.1;
          noise = (rnd k - 0.5) * 0.3;
          envelope = sin (position * pi * 4) * 0.5 + 0.5;
          amplitude = (wave1 + wave2 + wave3 + noise) * envelope;
          (amplitude, k') =
            (if rnd (k + 1) < 0.05 then (amplitude + rnd (k + 2) * 0.4, k + 3)
             else (amplitude, k + 2))
      in (max 0.1 (min 1.0 (\<bar>amplitude\<bar> + 0.3)), k'))"

text \<open>
  The loop \<^verbatim>\<open>for (let i = 0; i < bars; i++) { ...; data.push(amplitude); }\<close>.
  The source fixes \<^verbatim>\<open>const bars = 150\<close>; the loop is written against \<open>bars\<close>, which is
  kept as an argument here (the \<^verbatim>\<open>barCount\<close> of the specification's \<^verbatim>\<open>generate\<close>). The
  loop starts at \<open>i = 0\<close>, so \<open>bars\<close> is positive whenever the body divides by it.
\<close>

function generateWaveform_loop ::
  "(nat \<Rightarrow> real) \<Rightarrow> int \<Rightarrow> int \<Rightarrow> nat \<Rightarrow> real list \<Rightarrow> real list" where
  "generateWaveform_loop rnd bars i k data =
     (if i < bars then
        (case bar_amplitude rnd bars i k of
           (amplitude, k') \<Rightarrow> generateWaveform_loop rnd bars (i + 1) k' (data @ [amplitude]))
      else data)"
  by pat_completeness auto
termination
  by (relation "measure (\<lambda>(rnd, bars, i, k, data). nat (bars - i))") auto

definition generate :: "(nat \<Rightarrow> real) \<Rightarrow> int \<Rightarrow> real list" where
  "generate rnd bars = generateWaveform_loop rnd bars 0 0 []"

definition generateWaveform :: "(nat \<Rightarrow> real) \<Rightarrow> real list" where
  "generateWaveform rnd = generate rnd 150"

text \<open>
  The amplitude as the specification words it (section 4.1), for a bar at \<open>position\<close> with
  a given noise and peak (the peak is \<open>0\<close> when none is added): the absolute value is taken
  of the waves and the noise, before the envelope, the \<open>0.3\<close> and the peak.
\<close>

definition spec_amplitude :: "real \<Rightarrow> real \<Rightarrow> real \<Rightarrow> real" where
  "spec_amplitude position noise peak =
     max 0.1 (min 1.0
       (\<bar>sin (position * pi * 8) * 0.4 + sin (position * pi * 16) * 0.2
           + sin (position * pi * 32) * 0.1 + noise\<bar>
          * (sin (position * pi * 4) * 0.5 + 0.5) + 0.3 + peak))"

text \<open>
  The amplitude as the source computes it: the peak is added to the product of the sum and
  the envelope, the absolute value is taken of the result, and \<open>0.3\<close> is added last.
\<close>

definition code_amplitude :: "real \<Rightarrow> real \<Rightarrow> real \<Rightarrow> real" where
  "code_amplitude position noise peak =
     max 0.1 (min 1.0
       (\<bar>(sin (position * pi * 8) * 0.4 + sin (position * pi * 16) * 0.2
            + sin (position * pi * 32) * 0.1 + noise)
           * (sin (position * pi * 4) * 0.5 + 0.5) + peak\<bar> + 0.3))"

text \<open>The noise and the peak of an iteration entered after \<open>k\<close> draws.\<close>

definition noise_at :: "(nat \<Rightarrow> real) \<Rightarrow> nat \<Rightarrow> real" where
  "noise_at rnd k = (rnd k - 0.5) * 0.3"

definition peak_at :: "(nat \<Rightarrow> real) \<Rightarrow> nat \<Rightarrow> real" where
  "peak_at rnd k = (if rnd (k + 1) < 0.05 then rnd (k + 2) * 0.4 else 0)"

text \<open>The number of draws made before iteration \<open>n\<close> of the loop.\<close>

fun draws_before :: "(nat \<Rightarrow> real) \<Rightarrow> int \<Rightarrow> nat \<Rightarrow> nat" where
  "draws_before rnd bars 0 = 0"
| "draws_before rnd bars (Suc n) =
     snd (bar_amplitude rnd bars (int n) (draws_before rnd bars n))"

section \<open>CoordinateMapper\<close>

text \<open>
  Both \<^verbatim>\<open>handleMouseMove\<close> (lines 202-203) and \<^verbatim>\<open>handleSeek\<close> (lines 216-217) turn the
  pointer's offset \<open>x\<close> in the container into a time with the same two statements:
  \<^verbatim>\<open>
  const progress = Math.max(0, Math.min(1, x / rect.width));
  const time = progress * duration;
  \<close>
  The specification calls them \<^verbatim>\<open>pixelToTime(xPx, widthPx, duration)\<close>.
  The offset and the width are finite (a pointer coordinate is a finite \<^verbatim>\<open>double\<close> of the
  DOM, the measured rectangle is laid out); the duration is any \<^verbatim>\<open>number\<close>.
\<close>

definition pixelToTime :: "real \<Rightarrow> real \<Rightarrow> number \<Rightarrow> number" where
  "pixelToTime x widthPx duration =
     (let progress = Math_max (Fin 0) (Math_min (Fin 1) (js_div (Fin x) (Fin widthPx)))
      in js_mul progress duration)"

text \<open>
  Time to progress, as \<^verbatim>\<open>drawWaveform\<close> computes it (lines 99-100):
  \<^verbatim>\<open>
  const progress = duration > 0 ? currentTime / duration : 0;
  const hoverProgress = duration > 0 && previewTime >= 0 ? previewTime / duration : -1;
  \<close>
\<close>

definition progressOf :: "number \<Rightarrow> number \<Rightarrow> number" where
  "progressOf currentTime duration =
     (if js_gt duration (Fin 0) then js_div currentTime duration else Fin 0)"

definition hoverProgressOf :: "number \<Rightarrow> number \<Rightarrow> number" where
  "hoverProgressOf previewTime duration =
     (if js_gt duration (Fin 0) \<and> js_ge previewTime (Fin 0) then js_div previewTime duration
      else Fin (- 1))"

text \<open>
  The two conversions as the specification words them (section 4.2), on real numbers:
  \<^verbatim>\<open>progress = clamp(xPx / widthPx, 0, 1); time = progress * duration\<close> and
  \<^verbatim>\<open>clamp(time / duration, 0, 1) when duration > 0, else 0\<close>.
\<close>

definition spec_clamp01 :: "real \<Rightarrow> real" where
  "spec_clamp01 r = max 0 (min 1 r)"

definition spec_pixelToTime :: "real \<Rightarrow> real \<Rightarrow> real \<Rightarrow> real" where
  "spec_pixelToTime x widthPx duration = spec_clamp01 (x / widthPx) * duration"

definition spec_progressOf :: "real \<Rightarrow> real \<Rightarrow> real" where
  "spec_progressOf t duration = (if 0 < duration then spec_clamp01 (t / duration) else 0)"

section \<open>InteractionController\<close>

text \<open>
  The component's interaction state is four \<^verbatim>\<open>useState\<close> cells (lines 20-23);
  \<^verbatim>\<open>previewTime\<close> is cleared by storing the sentinel \<open>-1\<close>, and is read as defined when
  \<^verbatim>\<open>previewTime >= 0\<close>.
\<close>

record ui_state =
  isDragging :: bool
  isHovering :: bool
  hoverTime :: number
  previewTime :: number

definition initial_state :: ui_state where
  "initial_state =
     \<lparr>isDragging = False, isHovering = False, hoverTime = Fin 0, previewTime = Fin (- 1)\<rparr>"

text \<open>The fields of \<^verbatim>\<open>getBoundingClientRect()\<close> that the handlers read.\<close>

record rect =
  left :: real
  width :: real

text \<open>
  What a handler reads besides the state: the \<^verbatim>\<open>duration\<close> property and the container,
  \<open>None\<close> while \<^verbatim>\<open>containerRef.current\<close> is null. The calls of the \<^verbatim>\<open>onSeek\<close> property
  are the handler's output, a list of the times it was called with, in order.
\<close>

record env =
  duration :: number
  container :: "rect option"

datatype phase = Idle | Hovering | Dragging

definition phase_of :: "ui_state \<Rightarrow> phase" where
  "phase_of s = (if isDragging s then Dragging else if isHovering s then Hovering else Idle)"

definition handleSeek :: "env \<Rightarrow> real \<Rightarrow> number list" where
  "handleSeek e clientX =
     (case container e of
        None \<Rightarrow> []
      | Some r \<Rightarrow>
          let x = clientX - left r;
              seekTime = pixelToTime x (width r) (duration e)
          in [seekTime])"

definition handleInteractionStart :: "env \<Rightarrow> ui_state \<Rightarrow> real \<Rightarrow> ui_state \<times> number list" where
  "handleInteractionStart e s clientX = (s\<lparr>isDragging := True\<rparr>, handleSeek e clientX)"

definition handleInteractionMove :: "env \<Rightarrow> ui_state \<Rightarrow> real \<Rightarrow> ui_state \<times> number list" where
  "handleInteractionMove e s clientX = (s, if isDragging s then handleSeek e clientX else [])"

definition handleMouseMove :: "env \<Rightarrow> ui_state \<Rightarrow> real \<Rightarrow> ui_state \<times> number list" where
  "handleMouseMove e s clientX =
     (if \<not> isDragging s \<and> isHovering s then
        (case container e of
           None \<Rightarrow> (s, [])
         | Some r \<Rightarrow>
             let x = clientX - left r;
                 time = pixelToTime x (width r) (duration e)
             in (s\<lparr>previewTime := time, hoverTime := time\<rparr>, []))
      else (s, []))"

definition handleMouseDown :: "env \<Rightarrow> ui_state \<Rightarrow> real \<Rightarrow> ui_state \<times> number list" where
  "handleMouseDown e s clientX = handleInteractionStart e s clientX"

definition handleGlobalMouseMove :: "env \<Rightarrow> ui_state \<Rightarrow> real \<Rightarrow> ui_state \<times> number list" where
  "handleGlobalMouseMove e s clientX = handleInteractionMove e s clientX"

text \<open>
  The touch handlers read \<^verbatim>\<open>e.touches[0].clientX\<close>: with no touch in the list this is a
  property read on \<^verbatim>\<open>undefined\<close>, a \<^verbatim>\<open>TypeError\<close> thrown before any state is set.
\<close>

datatype error = TypeError

definition handleTouchStart ::
  "env \<Rightarrow> ui_state \<Rightarrow> real list \<Rightarrow> error + ui_state \<times> number list" where
  "handleTouchStart e s touches =
     (case touches of
        [] \<Rightarrow> Inl TypeError
      | clientX # _ \<Rightarrow> Inr (handleInteractionStart e s clientX))"

definition handleTouchMove ::
  "env \<Rightarrow> ui_state \<Rightarrow> real list \<Rightarrow> error + ui_state \<times> number list" where
  "handleTouchMove e s touches =
     (case touches of
        [] \<Rightarrow> Inl TypeError
      | clientX # _ \<Rightarrow> Inr (handleInteractionMove e s clientX))"

definition handleEnd :: "ui_state \<Rightarrow> ui_state" where
  "handleEnd s = s\<lparr>isDragging := False, previewTime := Fin (- 1)\<rparr>"

definition onMouseEnter :: "ui_state \<Rightarrow> ui_state" where
  "onMouseEnter s = s\<lparr>isHovering := True\<rparr>"

definition onMouseLeave :: "ui_state \<Rightarrow> ui_state" where
  "onMouseLeave s = s\<lparr>isHovering := False, previewTime := Fin (- 1)\<rparr>"

text \<open>
  The events a handler is bound to. The first five are the container's own (lines 275-282);
  the last four are the listeners on \<^verbatim>\<open>document\<close>, which the effect of lines 246-260
  registers only while \<^verbatim>\<open>isDragging\<close> is true. A touch event carries the \<^verbatim>\<open>clientX\<close> of its
  touches. A mouse move over the container while dragging reaches both \<open>MouseMove\<close> and
  \<open>DocMouseMove\<close>, in this order.
\<close>

datatype event =
    MouseEnter
  | MouseLeave
  | MouseMove real
  | MouseDown real
  | TouchStart "real list"
  | DocMouseMove real
  | DocTouchMove "real list"
  | DocMouseUp
  | DocTouchEnd

text \<open>
  An exception thrown by a handler is not caught in the component: the handler's state
  updates so far (none) are all that happened, and the next event is handled as usual.
\<close>

definition uncaught ::
  "ui_state \<Rightarrow> error + ui_state \<times> number list \<Rightarrow> ui_state \<times> number list" where
  "uncaught s r = (case r of Inl _ \<Rightarrow> (s, []) | Inr out \<Rightarrow> out)"

text \<open>
  One event: the state after it and the \<^verbatim>\<open>onSeek\<close> calls it made. The component is
  rendered again between two events, so a handler reads the state the previous one wrote.
\<close>

fun dispatch :: "env \<Rightarrow> ui_state \<Rightarrow> event \<Rightarrow> ui_state \<times> number list" where
  "dispatch e s MouseEnter = (onMouseEnter s, [])"
| "dispatch e s MouseLeave = (onMouseLeave s, [])"
| "dispatch e s (MouseMove x) = handleMouseMove e s x"
| "dispatch e s (MouseDown x) = handleMouseDown e s x"
| "dispatch e s (TouchStart ts) = uncaught s (handleTouchStart e s ts)"
| "dispatch e s (DocMouseMove x) =
     (if isDragging s then handleGlobalMouseMove e s x else (s, []))"
| "dispatch e s (DocTouchMove ts) =
     (if isDragging s then uncaught s (handleTouchMove e s ts) else (s, []))"
| "dispatch e s DocMouseUp = (if isDragging s then (handleEnd s, []) else (s, []))"
| "dispatch e s DocTouchEnd = (if isDragging s then (handleEnd s, []) else (s, []))"

text \<open>A sequence of events, in the order delivered.\<close>

fun run :: "env \<Rightarrow> ui_state \<Rightarrow> event list \<Rightarrow> ui_state \<times> number list" where
  "run e s [] = (s, [])"
| "run e s (ev # evs) =
     (case dispatch e s ev of
        (s', out) \<Rightarrow> (case run e s' evs of (s'', outs) \<Rightarrow> (s'', out @ outs)))"

text \<open>Kinds of events.\<close>

fun is_start :: "event \<Rightarrow> bool" where
  "is_start (MouseDown x) = True"
| "is_start (TouchStart ts) = True"
| "is_start _ = False"

fun is_end :: "event \<Rightarrow> bool" where
  "is_end DocMouseUp = True"
| "is_end DocTouchEnd = True"
| "is_end _ = False"

text \<open>A pointer move that reaches the listeners on the document, with a position.\<close>

fun is_drag_move :: "event \<Rightarrow> bool" where
  "is_drag_move (DocMouseMove x) = True"
| "is_drag_move (DocTouchMove (x # ts)) = True"
| "is_drag_move _ = False"

text \<open>Any pointer move, over the container or on the document.\<close>

fun is_move :: "event \<Rightarrow> bool" where
  "is_move (MouseMove x) = True"
| "is_move (DocMouseMove x) = True"
| "is_move (DocTouchMove ts) = True"
| "is_move _ = False"

text \<open>The position an event carries, when it carries one.\<close>

fun pointer_x :: "event \<Rightarrow> real option" where
  "pointer_x (MouseMove x) = Some x"
| "pointer_x (MouseDown x) = Some x"
| "pointer_x (DocMouseMove x) = Some x"
| "pointer_x (TouchStart (x # ts)) = Some x"
| "pointer_x (DocTouchMove (x # ts)) = Some x"
| "pointer_x _ = None"

text \<open>
  The time at the pointer of an event, for a measured container \<open>r\<close>:
  \<^verbatim>\<open>pixelToTime(x - left, widthPx, duration)\<close>.
\<close>

definition time_at :: "rect \<Rightarrow> number \<Rightarrow> event \<Rightarrow> number" where
  "time_at r d ev =
     (case pointer_x ev of
        Some x \<Rightarrow> pixelToTime (x - left r) (width r) d
      | None \<Rightarrow> NaN)"

text \<open>
  What the drawing needs of the interaction state: a preview time that \<^verbatim>\<open>drawWaveform\<close>
  reads as defined (\<^verbatim>\<open>previewTime >= 0\<close>) belongs to a hover or a drag and is at most the
  duration.
\<close>

definition preview_defined :: "ui_state \<Rightarrow> bool" where
  "preview_defined s = js_ge (previewTime s) (Fin 0)"

definition preview_inv :: "env \<Rightarrow> ui_state \<Rightarrow> bool" where
  "preview_inv e s =
     (preview_defined s \<longrightarrow>
        phase_of s \<noteq> Idle \<and> js_le (Fin 0) (previewTime s) \<and> js_le (previewTime s) (duration e))"

text \<open>
  The invariant of the interaction state, with "defined" read as "not the cleared
  sentinel": a preview time other than \<open>-1\<close> belongs to a hover or a drag and lies between
  \<open>0\<close> and the duration. Any other negative time, and NaN, in \<^verbatim>\<open>previewTime\<close> break it;
  it implies the condition above.
\<close>

definition interaction_inv :: "env \<Rightarrow> ui_state \<Rightarrow> bool" where
  "interaction_inv e s =
     (previewTime s \<noteq> Fin (- 1) \<longrightarrow>
        phase_of s \<noteq> Idle \<and> js_le (Fin 0) (previewTime s) \<and> js_le (previewTime s) (duration e))"

text \<open>The container, when it is measured, has a positive width.\<close>

definition positive_width :: "env \<Rightarrow> bool" where
  "positive_width e = (case container e of None \<Rightarrow> True | Some r \<Rightarrow> 0 < width r)"

section \<open>RenderEngine: the colour of a bar\<close>

text \<open>
  The fill styles \<^verbatim>\<open>drawWaveform\<close> chooses from (lines 108, 112, 116):
  \<^verbatim>\<open>rgba(255, 255, 255, 0.25)\<close> for a bar not played yet,
  \<^verbatim>\<open>rgba(120, 75, 160, 0.7)\<close> for the hover preview, and
  \<^verbatim>\<open>rgba(255, 60, 172, playedIntensity)\<close> for a played bar.
\<close>

datatype fill_style = Unplayed | PreviewHighlight | Played number

text \<open>
  The body of \<^verbatim>\<open>waveformData.forEach\<close> (lines 102-117) for the bar \<open>index\<close> of \<open>n\<close>:
  \<^verbatim>\<open>
  const barPosition = index / waveformData.length;
  if (hoverProgress >= 0 && barPosition <= hoverProgress && barPosition > progress) ...
  else if (barPosition <= progress) {
    const playedIntensity = Math.min(1, (progress - barPosition) * 10 + 0.6); ...
  \<close>
\<close>

definition bar_fill :: "number \<Rightarrow> number \<Rightarrow> number \<Rightarrow> nat \<Rightarrow> nat \<Rightarrow> fill_style" where
  "bar_fill currentTime dur preview index n =
     (let progress = progressOf currentTime dur;
          hoverProgress = hoverProgressOf preview dur;
          barPosition = js_div (Fin (real index)) (Fin (real n))
      in if js_ge hoverProgress (Fin 0) \<and> js_le barPosition hoverProgress
            \<and> js_gt barPosition progress
         then PreviewHighlight
         else if js_le barPosition progress
         then Played (Math_min (Fin 1)
                (js_add (js_mul (js_sub progress barPosition) (Fin 10)) (Fin 0.6)))
         else Unplayed)"

text \<open>
  The styles of all bars of one \<^verbatim>\<open>drawWaveform\<close> call, in drawing order; \<open>None\<close> when it
  returns at line 74 or 77 without drawing (\<open>surface\<close> is false when the canvas, the
  container or the 2D context is missing).
\<close>

definition drawWaveform_fills ::
  "bool \<Rightarrow> real list \<Rightarrow> number \<Rightarrow> number \<Rightarrow> number \<Rightarrow> fill_style list option" where
  "drawWaveform_fills surface waveformData currentTime dur preview =
     (if \<not> surface \<or> length waveformData = 0 then None
      else Some (map (\<lambda>index. bar_fill currentTime dur preview index (length waveformData))
                  [0 ..< length waveformData]))"

text \<open>
  The colouring rule as the specification words it (section 4.3, step 3), on reals, with
  the clamped progress of section 4.2: \<open>active\<close> says that the widget is hovered or
  dragged, \<open>preview\<close> is the preview time when it is defined.
\<close>

definition spec_intensity :: "real \<Rightarrow> real \<Rightarrow> real" where
  "spec_intensity progress p = min 1 ((progress - p) * 10 + 0.6)"

definition spec_bar_style :: "bool \<Rightarrow> real option \<Rightarrow> real \<Rightarrow> real \<Rightarrow> real \<Rightarrow> fill_style" where
  "spec_bar_style active preview currentTime dur p =
     (let progress = spec_progressOf currentTime dur
      in if active \<and> (case preview of
                         None \<Rightarrow> False
                       | Some t \<Rightarrow> progress < p \<and> p \<le> spec_progressOf t dur)
         then PreviewHighlight
         else if p \<le> progress then Played (Fin (spec_intensity progress p))
         else Unplayed)"

text \<open>The preview time of a state as the specification sees it: a time, or undefined.\<close>

definition preview_of :: "ui_state \<Rightarrow> real option" where
  "preview_of s =
     (case previewTime s of Fin t \<Rightarrow> if 0 \<le> t then Some t else None | _ \<Rightarrow> None)"

section \<open>Concrete inputs\<close>

text \<open>
  A sequence of draws: every draw is \<open>0\<close> but the third, which is \<open>1/2\<close>. The first bar
  then has the lowest noise, and a peak of \<open>0.2\<close> is added to it.
\<close>

definition demo_draws :: "nat \<Rightarrow> real" where
  "demo_draws k = (if k = 2 then 1 / 2 else 0)"

text \<open>A track of 200 seconds in a container 300 pixels wide, 10 pixels from the left.\<close>

definition demo_env :: env where
  "demo_env = \<lparr>duration = Fin 200, container = Some \<lparr>left = 10, width = 300\<rparr>\<rparr>"

text \<open>The same track in a container of width zero at the left edge of the page.\<close>

definition zero_width_env :: env where
  "zero_width_env = \<lparr>duration = Fin 200, container = Some \<lparr>left = 0, width = 0\<rparr>\<rparr>"

text \<open>A hovered state with a preview at 50 seconds.\<close>

definition hovered_state :: ui_state where
  "hovered_state =
     \<lparr>isDragging = False, isHovering = True, hoverTime = Fin 50, previewTime = Fin 50\<rparr>"

section \<open>Properties of the time labels\<close>

declare digits.simps [simp del]

lemmas formatTime_defs =
  formatTime_def js_not_def isNaN_def trunc_def padStart_def

text \<open>
  The labels the specification lists: \<open>M:SS\<close> with the seconds floored and padded to two
  digits, and \<open>0:00\<close> for zero and for NaN.
\<close>

lemma formatTime_examples:
  "formatTime (Fin 0) = Some ''0:00''
   \<and> formatTime (Fin 65) = Some ''1:05''
   \<and> formatTime (Fin 125.4) = Some ''2:05''
   \<and> formatTime (Fin 3600) = Some ''60:00''
   \<and> formatTime NaN = Some ''0:00''"
proof -
  have "formatTime (Fin 0) = Some ''0:00''" "formatTime NaN = Some ''0:00''"
    by (simp_all add: formatTime_defs)
  moreover have "formatTime (Fin 65) = Some ''1:05''"
    by (simp add: formatTime_defs, code_simp)
  moreover have "formatTime (Fin 125.4) = Some ''2:05''"
    by (simp add: formatTime_defs, code_simp)
  moreover have "formatTime (Fin 3600) = Some ''60:00''"
    by (simp add: formatTime_defs, code_simp)
  ultimately show ?thesis by simp
qed

text \<open>
  C8. \<^verbatim>\<open>formatTime\<close> prints \<open>M:SS\<close>, and \<open>0:00\<close> for every input that is not a finite
  number. The guard of line 263 catches zero and NaN only: an infinite duration (the
  duration of a live stream) passes it, \<^verbatim>\<open>Infinity % 60\<close> is NaN, and the label is
  \<open>Infinity:NaN\<close>, not \<open>0:00\<close>.
\<close>

theorem formatTime_Infinity: "formatTime PInf = Some ''Infinity:NaN''"
  by (simp add: formatTime_defs)

section \<open>Properties of the waveform\<close>

declare generateWaveform_loop.simps [simp del]

lemma bar_amplitude_fst:
  "fst (bar_amplitude rnd bars i k) =
     code_amplitude (real_of_int i / real_of_int bars) (noise_at rnd k) (peak_at rnd k)"
  by (simp add: bar_amplitude_def code_amplitude_def noise_at_def peak_at_def Let_def)

lemma code_amplitude_range:
  "0.1 \<le> code_amplitude p noise peak \<and> code_amplitude p noise peak \<le> 1"
  by (simp add: code_amplitude_def)

text \<open>
  The loop, entered at bar \<open>m\<close> with the draws made before it, pushes one amplitude for
  each of the bars \<open>m, ..., bars - 1\<close>.
\<close>

lemma loop_unfold:
  "generateWaveform_loop rnd bars (int m) (draws_before rnd bars m) data =
     data @ map (\<lambda>j. fst (bar_amplitude rnd bars (int j) (draws_before rnd bars j)))
              [m ..< nat bars]"
proof (induction "nat bars - m" arbitrary: m data)
  case 0
  then have "\<not> int m < bars" by linarith
  moreover from 0 have "[m ..< nat bars] = []" by simp
  ultimately show ?case
    by (subst generateWaveform_loop.simps) simp
next
  case (Suc d)
  then have lt: "int m < bars" and lt': "m < nat bars" by linarith+
  from Suc have d: "d = nat bars - Suc m" by linarith
  have step: "generateWaveform_loop rnd bars (int m) (draws_before rnd bars m) data =
      generateWaveform_loop rnd bars (int (Suc m)) (draws_before rnd bars (Suc m))
        (data @ [fst (bar_amplitude rnd bars (int m) (draws_before rnd bars m))])"
    using lt
    by (subst generateWaveform_loop.simps) (simp add: case_prod_beta add.commute)
  show ?case
    unfolding step Suc.hyps(1)[OF d]
    using lt' by (simp add: upt_conv_Cons)
qed

lemma generate_map:
  "generate rnd bars =
     map (\<lambda>j. fst (bar_amplitude rnd bars (int j) (draws_before rnd bars j))) [0 ..< nat bars]"
  using loop_unfold [of rnd bars 0 "[]"] by (simp add: generate_def)

lemma generate_nth:
  "n < nat bars \<Longrightarrow>
     generate rnd bars ! n =
       code_amplitude (real n / real_of_int bars)
         (noise_at rnd (draws_before rnd bars n)) (peak_at rnd (draws_before rnd bars n))"
  by (simp add: generate_map bar_amplitude_fst)

text \<open>
  C3. For every bar count, \<^verbatim>\<open>generate\<close> returns exactly that many amplitudes, each in
  \<open>[0.1, 1.0]\<close>, whatever the draws; a bar count of zero or less gives the empty series;
  the component's own call uses 150 bars.
\<close>

theorem generate_length_range:
  "length (generate rnd bars) = nat bars
   \<and> (\<forall>a\<in>set (generate rnd bars). 0.1 \<le> a \<and> a \<le> 1.0)
   \<and> (bars \<le> 0 \<longrightarrow> generate rnd bars = [])
   \<and> length (generateWaveform rnd) = 150"
proof -
  have len: "length (generate rnd bars) = nat bars" for bars
    by (simp add: generate_map)
  have "\<forall>a\<in>set (generate rnd bars). 0.1 \<le> a \<and> a \<le> 1.0"
    using code_amplitude_range by (auto simp: generate_map bar_amplitude_fst)
  moreover have "bars \<le> 0 \<longrightarrow> generate rnd bars = []"
    by (simp add: generate_map)
  ultimately show ?thesis
    using len by (simp add: generateWaveform_def)
qed

theorem generate_length_range_witness:
  "length (generate demo_draws 3) = 3
   \<and> 0.1 \<le> generate demo_draws 3 ! 2 \<and> generate demo_draws 3 ! 2 \<le> 1.0
   \<and> generate demo_draws (- 2) = []
   \<and> length (generateWaveform demo_draws) = 150"
proof -
  note three = generate_length_range [of demo_draws 3]
  then have "generate demo_draws 3 ! 2 \<in> set (generate demo_draws 3)"
    by simp
  with three have "0.1 \<le> generate demo_draws 3 ! 2 \<and> generate demo_draws 3 ! 2 \<le> 1.0"
    by blast
  moreover have "generate demo_draws (- 2) = []"
    using generate_length_range [of demo_draws "- 2"] by simp
  ultimately show ?thesis
    using three by simp
qed

lemma spec_code_agree:
  assumes "peak = 0"
  shows "code_amplitude p noise peak = spec_amplitude p noise peak"
proof -
  have "0 \<le> sin (p * pi * 4) * 0.5 + 0.5"
    using sin_ge_minus_one [of "p * pi * 4"] by linarith
  then show ?thesis
    by (simp add: assms code_amplitude_def spec_amplitude_def abs_mult)
qed

lemma noise_peak_range:
  assumes "random_source rnd"
  shows "- 0.15 \<le> noise_at rnd k \<and> noise_at rnd k \<le> 0.15
       \<and> 0 \<le> peak_at rnd k \<and> peak_at rnd k \<le> 0.4"
proof -
  from assms have "0 \<le> rnd k" "rnd k < 1" "0 \<le> rnd (k + 2)" "rnd (k + 2) < 1"
    by (simp_all add: random_source_def)
  then show ?thesis
    by (simp add: noise_at_def peak_at_def)
qed

text \<open>
  C4, as the claim words it, fails on the first bar of \<open>demo_draws\<close>: the source adds the
  peak before it takes the absolute value, so a peak of \<open>0.2\<close> on a sum of \<open>- 0.075\<close>
  gives \<open>0.125 + 0.3\<close>, where the claim's formula gives \<open>0.075 + 0.3 + 0.2\<close>.
\<close>

theorem amplitude_formula_counterexample:
  "generateWaveform demo_draws ! 0 = 17 / 40
   \<and> noise_at demo_draws 0 = - 0.15 \<and> peak_at demo_draws 0 = 0.2
   \<and> spec_amplitude (real_of_int 0 / real_of_int 150) (noise_at demo_draws 0)
         (peak_at demo_draws 0) = 23 / 40"
proof -
  have "generateWaveform demo_draws ! 0 =
      code_amplitude (real 0 / real_of_int 150) (noise_at demo_draws (draws_before demo_draws 150 0))
        (peak_at demo_draws (draws_before demo_draws 150 0))"
    unfolding generateWaveform_def by (rule generate_nth) simp
  then have "generateWaveform demo_draws ! 0 = 17 / 40"
    by (simp add: code_amplitude_def noise_at_def peak_at_def demo_draws_def)
  then show ?thesis
    by (simp add: spec_amplitude_def noise_at_def peak_at_def demo_draws_def)
qed

text \<open>
  C4, amended. For every bar \<open>i\<close> of \<open>bars\<close> and every sequence of draws, the amplitude is
  \<open>clamp(|(waves + noise) * envelope + peak| + 0.3, 0.1, 1.0)\<close> at position \<open>i / bars\<close>:
  the peak is added to the product of the sum and the envelope, before the absolute value,
  and \<open>0.3\<close> after it. The noise lies in \<open>[-0.15, 0.15]\<close> and the peak in \<open>[0, 0.4]\<close>, and
  when no peak is added the amplitude is the one of the claim's formula.
\<close>

theorem amplitude_formula:
  assumes "random_source rnd" and "0 \<le> i" and "i < bars"
    and "k = draws_before rnd bars (nat i)"
  shows "generate rnd bars ! nat i =
           code_amplitude (real_of_int i / real_of_int bars) (noise_at rnd k) (peak_at rnd k)
       \<and> - 0.15 \<le> noise_at rnd k \<and> noise_at rnd k \<le> 0.15
       \<and> 0 \<le> peak_at rnd k \<and> peak_at rnd k \<le> 0.4
       \<and> (peak_at rnd k = 0 \<longrightarrow>
            generate rnd bars ! nat i =
              spec_amplitude (real_of_int i / real_of_int bars) (noise_at rnd k) 0)"
proof -
  from assms(2,3) have "nat i < nat bars" by linarith
  then have eq: "generate rnd bars ! nat i =
      code_amplitude (real_of_int i / real_of_int bars) (noise_at rnd k) (peak_at rnd k)"
    using generate_nth [of "nat i" bars rnd] assms(2,4) by simp
  moreover have "peak_at rnd k = 0 \<longrightarrow>
      generate rnd bars ! nat i =
        spec_amplitude (real_of_int i / real_of_int bars) (noise_at rnd k) 0"
    using eq spec_code_agree [of "peak_at rnd k"] by auto
  ultimately show ?thesis
    using noise_peak_range [OF assms(1), of k] by simp
qed

theorem amplitude_formula_witness:
  "random_source demo_draws
   \<and> generate demo_draws 150 ! nat 0 =
       code_amplitude (real_of_int 0 / real_of_int 150) (noise_at demo_draws 0)
         (peak_at demo_draws 0)
   \<and> code_amplitude (real_of_int 0 / real_of_int 150) (noise_at demo_draws 0)
         (peak_at demo_draws 0) = 17 / 40
   \<and> peak_at demo_draws 0 \<le> 0.4"
proof -
  have r: "random_source demo_draws"
    by (simp add: random_source_def demo_draws_def)
  have k: "0 = draws_before demo_draws 150 (nat 0)" by simp
  have "code_amplitude (real_of_int 0 / real_of_int 150) (noise_at demo_draws 0)
         (peak_at demo_draws 0) = 17 / 40"
    by (simp add: code_amplitude_def noise_at_def peak_at_def demo_draws_def)
  with amplitude_formula [OF r _ _ k] r show ?thesis by simp
qed

section \<open>Properties of the interaction\<close>

text \<open>For a width that is not zero and a finite duration, the time is the clamp on reals.\<close>

lemma pixelToTime_finite:
  "w \<noteq> 0 \<Longrightarrow> pixelToTime x w (Fin d) = Fin (spec_pixelToTime x w d)"
  by (simp add: pixelToTime_def spec_pixelToTime_def spec_clamp01_def)

lemmas handler_defs =
  handleSeek_def handleInteractionStart_def handleInteractionMove_def handleMouseMove_def
  handleMouseDown_def handleGlobalMouseMove_def handleTouchStart_def handleTouchMove_def
  handleEnd_def onMouseEnter_def onMouseLeave_def uncaught_def

text \<open>Outside a drag, an event that does not start one calls nothing and starts nothing.\<close>

lemma dispatch_idle_silent:
  "\<not> isDragging s \<Longrightarrow> \<not> is_start ev \<Longrightarrow>
     snd (dispatch e s ev) = [] \<and> \<not> isDragging (fst (dispatch e s ev))"
  by (cases ev) (auto simp: handler_defs Let_def split: option.splits list.splits)

lemma run_idle_silent:
  "\<not> isDragging s \<Longrightarrow> \<forall>ev\<in>set evs. \<not> is_start ev \<Longrightarrow>
     snd (run e s evs) = [] \<and> \<not> isDragging (fst (run e s evs))"
proof (induction evs arbitrary: s)
  case Nil
  then show ?case by simp
next
  case (Cons ev evs)
  obtain s' out where d: "dispatch e s ev = (s', out)" by (cases "dispatch e s ev")
  with Cons.prems dispatch_idle_silent [of s ev e] have "out = []" "\<not> isDragging s'" by auto
  with Cons.IH [of s'] Cons.prems d show ?case by (auto split: prod.splits)
qed

lemma run_append:
  "run e s (xs @ ys) =
     (case run e s xs of (s', o1) \<Rightarrow> (case run e s' ys of (s'', o2) \<Rightarrow> (s'', o1 @ o2)))"
  by (induction xs arbitrary: s) (auto split: prod.splits)

text \<open>
  During a drag, an event that neither starts nor ends one keeps the drag, and calls
  \<^verbatim>\<open>onSeek\<close> once when it is a move on the document, not at all otherwise.
\<close>

lemma dispatch_dragging:
  "isDragging s \<Longrightarrow> container e = Some r \<Longrightarrow> \<not> is_start ev \<Longrightarrow> \<not> is_end ev \<Longrightarrow>
     isDragging (fst (dispatch e s ev)) \<and>
     snd (dispatch e s ev) = (if is_drag_move ev then [time_at r (duration e) ev] else [])"
  by (cases ev) (auto simp: handler_defs time_at_def Let_def split: option.splits list.splits)

lemma run_dragging:
  "isDragging s \<Longrightarrow> container e = Some r \<Longrightarrow>
     \<forall>ev\<in>set evs. \<not> is_start ev \<and> \<not> is_end ev \<Longrightarrow>
     isDragging (fst (run e s evs)) \<and>
     snd (run e s evs) = map (time_at r (duration e)) (filter is_drag_move evs)"
proof (induction evs arbitrary: s)
  case Nil
  then show ?case by simp
next
  case (Cons ev evs)
  obtain s' out where d: "dispatch e s ev = (s', out)" by (cases "dispatch e s ev")
  with Cons.prems dispatch_dragging [of s e r ev]
  have "isDragging s'" "out = (if is_drag_move ev then [time_at r (duration e) ev] else [])"
    by auto
  with Cons.IH [of s'] Cons.prems d show ?case by (auto split: prod.splits)
qed

lemma dispatch_start:
  "container e = Some r \<Longrightarrow> is_start ev \<Longrightarrow> pointer_x ev = Some x \<Longrightarrow>
     dispatch e s ev =
       (s\<lparr>isDragging := True\<rparr>, [pixelToTime (x - left r) (width r) (duration e)])"
  by (cases ev) (auto simp: handler_defs Let_def split: list.splits)

lemma dispatch_end:
  "isDragging s \<Longrightarrow> is_end ev \<Longrightarrow> dispatch e s ev = (handleEnd s, [])"
  by (cases ev) auto

text \<open>
  C1. A drag gesture on a measured container \<open>r\<close>, from any state: the pointer-down or
  touch-start \<open>e0\<close> at \<open>x\<close> calls \<^verbatim>\<open>onSeek\<close> once, with
  \<open>pixelToTime (x - left) width duration\<close>, which is \<open>clamp((x - left) / width, 0, 1) * duration\<close>
  for a width that is not zero and a finite duration; of the events \<open>mid\<close> that follow before the
  release, each pointer move that reaches the document calls it exactly once more, with
  the time at its own position, and no other event calls it; the release \<open>e1\<close> ends the
  drag, and nothing is called by it or by the events \<open>rest\<close> after it, as long as no new
  drag starts.
\<close>

theorem drag_lifecycle:
  assumes measured: "container e = Some r"
    and start: "is_start e0" "pointer_x e0 = Some x"
    and mid: "\<forall>ev\<in>set mid. \<not> is_start ev \<and> \<not> is_end ev"
    and stop: "is_end e1"
    and rest: "\<forall>ev\<in>set rest. \<not> is_start ev"
  shows "snd (dispatch e s e0) = [pixelToTime (x - left r) (width r) (duration e)]
       \<and> (width r \<noteq> 0 \<and> duration e = Fin d \<longrightarrow>
            pixelToTime (x - left r) (width r) (duration e) =
              Fin (spec_clamp01 ((x - left r) / width r) * d))
       \<and> snd (run e s (e0 # mid @ e1 # rest)) =
           map (time_at r (duration e)) (e0 # filter is_drag_move mid)
       \<and> \<not> isDragging (fst (run e s (e0 # mid @ [e1])))"
proof -
  let ?s0 = "s\<lparr>isDragging := True\<rparr>"
  let ?t0 = "pixelToTime (x - left r) (width r) (duration e)"
  have d0: "dispatch e s e0 = (?s0, [?t0])"
    using dispatch_start [OF measured start] .
  have t0: "time_at r (duration e) e0 = ?t0"
    using start by (simp add: time_at_def)
  obtain s1 o1 where r1: "run e ?s0 mid = (s1, o1)" by (cases "run e ?s0 mid")
  have m: "isDragging s1" "o1 = map (time_at r (duration e)) (filter is_drag_move mid)"
    using run_dragging [of ?s0 e r mid] measured mid r1 by auto
  have d1: "dispatch e s1 e1 = (handleEnd s1, [])"
    using dispatch_end [OF m(1) stop] .
  have idle: "\<not> isDragging (handleEnd s1)" by (simp add: handleEnd_def)
  obtain s2 o2 where r2: "run e (handleEnd s1) rest = (s2, o2)"
    by (cases "run e (handleEnd s1) rest")
  have o2: "o2 = []"
    using run_idle_silent [OF idle rest, of e] r2 by simp
  have "run e s (e0 # mid @ e1 # rest) = (s2, ?t0 # o1)"
    by (simp add: d0 run_append r1 d1 r2 o2)
  moreover have "run e s (e0 # mid @ [e1]) = (handleEnd s1, ?t0 # o1)"
    by (simp add: d0 run_append r1 d1)
  moreover have "width r \<noteq> 0 \<and> duration e = Fin d \<longrightarrow>
      ?t0 = Fin (spec_clamp01 ((x - left r) / width r) * d)"
    by (simp add: pixelToTime_finite spec_pixelToTime_def)
  ultimately show ?thesis
    using d0 m(2) t0 idle by simp
qed

theorem drag_lifecycle_witness:
  "snd (dispatch demo_env initial_state (MouseDown 160)) = [Fin 100]
   \<and> snd (run demo_env initial_state
        [MouseDown 160, MouseMove 85, DocMouseMove 85, DocTouchMove [310, 0], MouseLeave,
         DocMouseUp, MouseMove 20, DocMouseMove 20])
      = [Fin 100, Fin 50, Fin 200]
   \<and> \<not> isDragging (fst (run demo_env initial_state
        [MouseDown 160, MouseMove 85, DocMouseMove 85, DocTouchMove [310, 0], MouseLeave,
         DocMouseUp]))"
proof -
  have c: "container demo_env = Some \<lparr>left = 10, width = 300\<rparr>"
    by (simp add: demo_env_def)
  have s: "is_start (MouseDown 160)" "pointer_x (MouseDown 160) = Some 160" by simp_all
  have m: "\<forall>ev\<in>set [MouseMove 85, DocMouseMove 85, DocTouchMove [310, 0], MouseLeave].
             \<not> is_start ev \<and> \<not> is_end ev" by simp
  have f: "is_end DocMouseUp" by simp
  have r: "\<forall>ev\<in>set [MouseMove 20, DocMouseMove 20]. \<not> is_start ev" by simp
  show ?thesis
    using drag_lifecycle [OF c s m f r, of initial_state]
    by (simp add: demo_env_def time_at_def pixelToTime_def)
qed

text \<open>
  C9. Hovering without dragging never calls \<^verbatim>\<open>onSeek\<close>: from a state that is not dragging,
  no sequence of events without a pointer-down or touch-start (pointer-enter, pointer-move
  and pointer-leave on the container, and whatever happens on the document) makes a call,
  and none starts a drag.
\<close>

theorem hover_never_seeks:
  assumes "\<not> isDragging s" and "\<forall>ev\<in>set evs. \<not> is_start ev"
  shows "snd (run e s evs) = [] \<and> \<not> isDragging (fst (run e s evs))"
  using assms by (rule run_idle_silent)

theorem hover_never_seeks_witness:
  "snd (run demo_env initial_state
          [MouseEnter, MouseMove 85, DocMouseMove 85, MouseMove 160, MouseLeave]) = []
   \<and> previewTime (fst (run demo_env initial_state [MouseEnter, MouseMove 85, MouseMove 160]))
       = Fin 100"
proof -
  have i: "\<not> isDragging initial_state" by (simp add: initial_state_def)
  have h: "\<forall>ev\<in>set [MouseEnter, MouseMove 85, DocMouseMove 85, MouseMove 160, MouseLeave].
             \<not> is_start ev"
    by simp
  have "previewTime (fst (run demo_env initial_state [MouseEnter, MouseMove 85, MouseMove 160]))
       = Fin 100"
    by (simp add: demo_env_def initial_state_def handler_defs pixelToTime_def Let_def)
  with hover_never_seeks [OF i h, of demo_env] show ?thesis by simp
qed

section \<open>Properties of the coordinate mapping\<close>

lemma spec_clamp01_range: "0 \<le> spec_clamp01 r \<and> spec_clamp01 r \<le> 1"
  by (simp add: spec_clamp01_def)

lemma spec_clamp01_id: "0 \<le> r \<Longrightarrow> r \<le> 1 \<Longrightarrow> spec_clamp01 r = r"
  by (simp add: spec_clamp01_def)

text \<open>
  C2. For a width \<open>w > 0\<close>, a duration \<open>d > 0\<close> and every pixel offset \<open>x\<close>, the progress of
  the time at \<open>x\<close> is \<open>clamp(x / w, 0, 1)\<close>: for the progress and the hover progress that
  \<^verbatim>\<open>drawWaveform\<close> computes from the time that \<^verbatim>\<open>handleSeek\<close> and \<^verbatim>\<open>handleMouseMove\<close>
  compute, and for the two conversions as the specification words them, which the source's
  agree with. On the reals of this model the equality is exact.
\<close>

theorem round_trip:
  assumes "0 < w" and "0 < d"
  shows "progressOf (pixelToTime x w (Fin d)) (Fin d) = Fin (spec_clamp01 (x / w))
       \<and> hoverProgressOf (pixelToTime x w (Fin d)) (Fin d) = Fin (spec_clamp01 (x / w))
       \<and> pixelToTime x w (Fin d) = Fin (spec_pixelToTime x w d)
       \<and> spec_progressOf (spec_pixelToTime x w d) d = spec_clamp01 (x / w)"
proof -
  from assms(1) have t: "pixelToTime x w (Fin d) = Fin (spec_pixelToTime x w d)"
    by (simp add: pixelToTime_finite)
  have nonneg: "0 \<le> spec_pixelToTime x w d"
    using assms(2) spec_clamp01_range [of "x / w"] by (simp add: spec_pixelToTime_def)
  have ratio: "spec_pixelToTime x w d / d = spec_clamp01 (x / w)"
    using assms(2) by (simp add: spec_pixelToTime_def)
  have "progressOf (Fin (spec_pixelToTime x w d)) (Fin d) = Fin (spec_clamp01 (x / w))"
    using assms(2) ratio by (simp add: progressOf_def js_gt_def)
  moreover have "hoverProgressOf (Fin (spec_pixelToTime x w d)) (Fin d) = Fin (spec_clamp01 (x / w))"
    using assms(2) ratio nonneg by (simp add: hoverProgressOf_def js_gt_def js_ge_def)
  moreover have "spec_progressOf (spec_pixelToTime x w d) d = spec_clamp01 (x / w)"
    using assms(2) ratio spec_clamp01_range [of "x / w"]
    by (simp add: spec_progressOf_def spec_clamp01_def)
  ultimately show ?thesis using t by simp
qed

theorem round_trip_witness:
  "(0::real) < 300 \<and> (0::real) < 200
   \<and> progressOf (pixelToTime 75 300 (Fin 200)) (Fin 200) = Fin (1 / 4)
   \<and> hoverProgressOf (pixelToTime 450 300 (Fin 200)) (Fin 200) = Fin 1
   \<and> pixelToTime 75 300 (Fin 200) = Fin 50"
proof -
  have w: "(0::real) < 300" and d: "(0::real) < 200" by simp_all
  have "progressOf (pixelToTime 75 300 (Fin 200)) (Fin 200) = Fin (spec_clamp01 (75 / 300))"
    using round_trip [OF w d, of 75] by blast
  then have a: "progressOf (pixelToTime 75 300 (Fin 200)) (Fin 200) = Fin (1 / 4)"
    by (simp add: spec_clamp01_def)
  have "hoverProgressOf (pixelToTime 450 300 (Fin 200)) (Fin 200) = Fin (spec_clamp01 (450 / 300))"
    using round_trip [OF w d, of 450] by blast
  then have b: "hoverProgressOf (pixelToTime 450 300 (Fin 200)) (Fin 200) = Fin 1"
    by (simp add: spec_clamp01_def)
  have "pixelToTime 75 300 (Fin 200) = Fin (spec_pixelToTime 75 300 200)"
    using round_trip [OF w d, of 75] by blast
  then have c: "pixelToTime 75 300 (Fin 200) = Fin 50"
    by (simp add: spec_pixelToTime_def spec_clamp01_def)
  from a b c show ?thesis by simp
qed

text \<open>
  With a width of zero the quotient \<^verbatim>\<open>x / rect.width\<close> is an infinity of the sign of \<open>x\<close>,
  or NaN when \<open>x\<close> is zero; \<^verbatim>\<open>Math.min\<close> and \<^verbatim>\<open>Math.max\<close> turn the infinities into \<open>1\<close> and
  \<open>0\<close> and keep the NaN.
\<close>

lemma pixelToTime_zero_width:
  "pixelToTime x 0 (Fin d) = (if x < 0 then Fin 0 else if 0 < x then Fin d else NaN)"
  by (simp add: pixelToTime_def inf_by_sign_def)

lemma zero_width_at_left_edge:
  assumes "container e = Some r" and "width r = 0" and "duration e = Fin d"
  shows "handleSeek e (left r) = [NaN]"
  using assms by (simp add: handleSeek_def pixelToTime_zero_width Let_def)

text \<open>
  C5, as the claim words it, fails: in a container of width zero a pointer to the right of
  the container's left edge seeks to the end of the track, not to \<open>0\<close>, and previews it.
\<close>

theorem zero_width_counterexample:
  "container zero_width_env = Some \<lparr>left = 0, width = 0\<rparr>
   \<and> duration zero_width_env = Fin 200
   \<and> handleSeek zero_width_env 5 = [Fin 200]
   \<and> previewTime (fst (handleMouseMove zero_width_env hovered_state 5)) = Fin 200"
  by (simp add: zero_width_env_def hovered_state_def handleSeek_def handleMouseMove_def
      pixelToTime_def inf_by_sign_def Let_def)

text \<open>
  C5, amended. When the container width is zero and the duration is finite, a pointer left
  of the container's left edge gives progress \<open>0\<close>: the seek time of \<^verbatim>\<open>handleSeek\<close> and the
  preview time of \<^verbatim>\<open>handleMouseMove\<close> are \<open>0\<close>. A pointer right of the left edge gives
  progress \<open>1\<close>: both times are the duration.
\<close>

theorem zero_width_seek:
  assumes "container e = Some r" and "width r = 0" and "duration e = Fin d"
    and "\<not> isDragging s" and "isHovering s"
  shows "(clientX < left r \<longrightarrow>
            handleSeek e clientX = [Fin 0]
          \<and> previewTime (fst (handleMouseMove e s clientX)) = Fin 0)
       \<and> (left r < clientX \<longrightarrow>
            handleSeek e clientX = [Fin d]
          \<and> previewTime (fst (handleMouseMove e s clientX)) = Fin d)"
  using assms
  by (simp add: handleSeek_def handleMouseMove_def pixelToTime_zero_width Let_def)

theorem zero_width_seek_witness:
  "container zero_width_env = Some \<lparr>left = 0, width = 0\<rparr>
   \<and> handleSeek zero_width_env (- 5) = [Fin 0]
   \<and> previewTime (fst (handleMouseMove zero_width_env hovered_state (- 5))) = Fin 0
   \<and> handleSeek zero_width_env 5 = [Fin 200]"
proof -
  have c: "container zero_width_env = Some \<lparr>left = 0, width = 0\<rparr>"
    and w: "width \<lparr>left = 0, width = 0\<rparr> = 0"
    and d: "duration zero_width_env = Fin 200"
    and h: "\<not> isDragging hovered_state" "isHovering hovered_state"
    by (simp_all add: zero_width_env_def hovered_state_def)
  show ?thesis
    using zero_width_seek [OF c w d h, of "- 5"] zero_width_seek [OF c w d h, of 5] c
    by simp
qed

section \<open>The invariant of the interaction state\<close>

text \<open>The clamped quotient is NaN or a real between \<open>0\<close> and \<open>1\<close>, for every width.\<close>

lemma progress_cases:
  "Math_max (Fin 0) (Math_min (Fin 1) (js_div (Fin x) (Fin w))) = NaN
   \<or> (\<exists>p. 0 \<le> p \<and> p \<le> 1
          \<and> Math_max (Fin 0) (Math_min (Fin 1) (js_div (Fin x) (Fin w))) = Fin p)"
proof (cases "w = 0")
  case True
  then show ?thesis by (auto simp: inf_by_sign_def)
next
  case False
  then have "Math_max (Fin 0) (Math_min (Fin 1) (js_div (Fin x) (Fin w)))
       = Fin (max 0 (min 1 (x / w)))" by simp
  moreover have "0 \<le> max 0 (min 1 (x / w)) \<and> max 0 (min 1 (x / w)) \<le> 1" by simp
  ultimately show ?thesis by blast
qed

lemma pixelToTime_range:
  assumes "js_ge d (Fin 0)" and "js_ge (pixelToTime x w d) (Fin 0)"
  shows "js_le (pixelToTime x w d) d"
proof -
  let ?p = "Math_max (Fin 0) (Math_min (Fin 1) (js_div (Fin x) (Fin w)))"
  have t: "pixelToTime x w d = js_mul ?p d" by (simp add: pixelToTime_def)
  from progress_cases [of x w] show ?thesis
  proof
    assume "?p = NaN"
    with assms(2) t show ?thesis by (simp add: js_ge_def)
  next
    assume "\<exists>p. 0 \<le> p \<and> p \<le> 1 \<and> ?p = Fin p"
    then obtain p where p: "0 \<le> p" "p \<le> 1" "?p = Fin p" by blast
    from t p(3) have tp: "pixelToTime x w d = js_mul (Fin p) d" by (simp only:)
    show ?thesis
    proof (cases d)
      case (Fin dd)
      with assms(1) have "0 \<le> dd" by (simp add: js_ge_def)
      with p(2) have "p * dd \<le> dd" using mult_right_mono [of p 1 dd] by simp
      with tp Fin show ?thesis by simp
    next
      case PInf
      with tp assms(2) show ?thesis
        by (cases "p = 0") (simp_all add: inf_by_sign_def js_ge_def)
    next
      case NInf
      with assms(1) show ?thesis by (simp add: js_ge_def)
    next
      case NaN
      with assms(1) show ?thesis by (simp add: js_ge_def)
    qed
  qed
qed

lemma cleared_inv: "previewTime s = Fin (- 1) \<Longrightarrow> preview_inv e s"
  by (simp add: preview_inv_def preview_defined_def js_ge_def)

lemma dispatch_preview_inv:
  assumes d: "js_ge (duration e) (Fin 0)" and inv: "preview_inv e s"
  shows "preview_inv e (fst (dispatch e s ev))"
proof (cases ev)
  case MouseEnter
  with inv show ?thesis
    by (simp add: preview_inv_def preview_defined_def phase_of_def onMouseEnter_def)
next
  case MouseLeave
  then show ?thesis by (simp add: cleared_inv onMouseLeave_def)
next
  case (MouseMove x)
  show ?thesis
  proof (cases "\<not> isDragging s \<and> isHovering s \<and> container e \<noteq> None")
    case True
    then obtain r where r: "container e = Some r" by blast
    let ?t = "pixelToTime (x - left r) (width r) (duration e)"
    have "fst (dispatch e s ev) = s\<lparr>previewTime := ?t, hoverTime := ?t\<rparr>"
      using True r MouseMove by (simp add: handleMouseMove_def Let_def)
    moreover have "js_ge ?t (Fin 0) \<longrightarrow> js_le ?t (duration e)"
      using pixelToTime_range [OF d] by blast
    ultimately show ?thesis
      using True by (simp add: preview_inv_def preview_defined_def phase_of_def js_ge_def)
  next
    case False
    then have "fst (dispatch e s ev) = s"
      using MouseMove by (auto simp: handleMouseMove_def split: option.splits)
    with inv show ?thesis by simp
  qed
next
  case (MouseDown x)
  with inv show ?thesis
    by (simp add: preview_inv_def preview_defined_def phase_of_def handler_defs)
next
  case (TouchStart ts)
  with inv show ?thesis
    by (cases ts) (simp_all add: preview_inv_def preview_defined_def phase_of_def handler_defs)
next
  case (DocMouseMove x)
  with inv show ?thesis by (simp add: handler_defs)
next
  case (DocTouchMove ts)
  with inv show ?thesis by (cases ts) (simp_all add: handler_defs)
next
  case DocMouseUp
  with inv show ?thesis by (simp add: cleared_inv handleEnd_def)
next
  case DocTouchEnd
  with inv show ?thesis by (simp add: cleared_inv handleEnd_def)
qed

lemma run_preview_inv:
  "js_ge (duration e) (Fin 0) \<Longrightarrow> preview_inv e s \<Longrightarrow> preview_inv e (fst (run e s evs))"
proof (induction evs arbitrary: s)
  case Nil
  then show ?case by simp
next
  case (Cons ev evs)
  obtain s' out where d: "dispatch e s ev = (s', out)" by (cases "dispatch e s ev")
  with dispatch_preview_inv [OF Cons.prems, of ev] have "preview_inv e s'" by simp
  with Cons.IH [OF Cons.prems(1), of s'] d show ?case by (auto split: prod.splits)
qed

lemma to_idle_clears:
  "phase_of s \<noteq> Idle \<Longrightarrow> phase_of (fst (dispatch e s ev)) = Idle \<Longrightarrow>
     previewTime (fst (dispatch e s ev)) = Fin (- 1)"
  by (cases ev)
    (auto simp: phase_of_def handler_defs Let_def split: if_splits option.splits list.splits)

text \<open>
  The time a hover stores is a real between \<open>0\<close> and the duration, for a positive width and
  a finite duration that is not negative.
\<close>

lemma pixelToTime_bounds:
  assumes "0 < w" and "0 \<le> d"
  shows "\<exists>t. pixelToTime x w (Fin d) = Fin t \<and> 0 \<le> t \<and> t \<le> d"
proof -
  let ?p = "spec_clamp01 (x / w)"
  have p: "0 \<le> ?p" "?p \<le> 1" using spec_clamp01_range [of "x / w"] by simp_all
  from assms(1) have "pixelToTime x w (Fin d) = Fin (?p * d)"
    by (simp add: pixelToTime_finite spec_pixelToTime_def)
  moreover from p(1) assms(2) have "0 \<le> ?p * d" by simp
  moreover from p(2) assms(2) have "?p * d \<le> d" using mult_right_mono [of ?p 1 d] by simp
  ultimately show ?thesis by blast
qed

lemma cleared_interaction_inv: "previewTime s = Fin (- 1) \<Longrightarrow> interaction_inv e s"
  by (simp add: interaction_inv_def)

lemma interaction_inv_preview_inv: "interaction_inv e s \<Longrightarrow> preview_inv e s"
  by (auto simp: interaction_inv_def preview_inv_def preview_defined_def js_ge_def)

lemma dispatch_interaction_inv:
  assumes d: "duration e = Fin d" "0 \<le> d" and w: "positive_width e"
    and inv: "interaction_inv e s"
  shows "interaction_inv e (fst (dispatch e s ev))"
proof (cases ev)
  case MouseEnter
  with inv show ?thesis
    by (simp add: interaction_inv_def phase_of_def onMouseEnter_def)
next
  case MouseLeave
  then show ?thesis by (simp add: cleared_interaction_inv onMouseLeave_def)
next
  case (MouseMove x)
  show ?thesis
  proof (cases "\<not> isDragging s \<and> isHovering s \<and> container e \<noteq> None")
    case True
    then obtain r where r: "container e = Some r" by blast
    with w have "0 < width r" by (simp add: positive_width_def)
    from pixelToTime_bounds [OF this d(2), of "x - left r"]
    obtain t where t: "pixelToTime (x - left r) (width r) (Fin d) = Fin t" "0 \<le> t" "t \<le> d"
      by blast
    have "fst (dispatch e s ev) = s\<lparr>previewTime := Fin t, hoverTime := Fin t\<rparr>"
      using True r MouseMove t(1) d(1) by (simp add: handleMouseMove_def Let_def)
    then show ?thesis
      using True t(2,3) d(1) by (simp add: interaction_inv_def phase_of_def)
  next
    case False
    then have "fst (dispatch e s ev) = s"
      using MouseMove by (auto simp: handleMouseMove_def split: option.splits)
    with inv show ?thesis by simp
  qed
next
  case (MouseDown x)
  with inv show ?thesis
    by (simp add: interaction_inv_def phase_of_def handler_defs)
next
  case (TouchStart ts)
  with inv show ?thesis
    by (cases ts) (simp_all add: interaction_inv_def phase_of_def handler_defs)
next
  case (DocMouseMove x)
  with inv show ?thesis by (simp add: handler_defs)
next
  case (DocTouchMove ts)
  with inv show ?thesis by (cases ts) (simp_all add: handler_defs)
next
  case DocMouseUp
  with inv show ?thesis by (simp add: cleared_interaction_inv handleEnd_def)
next
  case DocTouchEnd
  with inv show ?thesis by (simp add: cleared_interaction_inv handleEnd_def)
qed

lemma run_interaction_inv:
  "duration e = Fin d \<Longrightarrow> 0 \<le> d \<Longrightarrow> positive_width e \<Longrightarrow> interaction_inv e s \<Longrightarrow>
     interaction_inv e (fst (run e s evs))"
proof (induction evs arbitrary: s)
  case Nil
  then show ?case by simp
next
  case (Cons ev evs)
  obtain s' out where d: "dispatch e s ev = (s', out)" by (cases "dispatch e s ev")
  with dispatch_interaction_inv [OF Cons.prems, of ev] have "interaction_inv e s'" by simp
  with Cons.IH [OF Cons.prems(1,2,3), of s'] d show ?case by (auto split: prod.splits)
qed

lemma interaction_inv_bounds:
  assumes "duration e = Fin d" and "interaction_inv e s" and "previewTime s \<noteq> Fin (- 1)"
  shows "phase_of s \<noteq> Idle \<and> (\<exists>t. previewTime s = Fin t \<and> 0 \<le> t \<and> t \<le> d)"
  using assms by (cases "previewTime s") (simp_all add: interaction_inv_def)

lemma release_clears:
  "phase_of s = Dragging \<Longrightarrow> is_end ev \<Longrightarrow>
     previewTime (fst (dispatch e s ev)) = Fin (- 1) \<and> phase_of (fst (dispatch e s ev)) \<noteq> Dragging"
  by (cases ev) (auto simp: phase_of_def handleEnd_def split: if_splits)

lemma leave_clears:
  "phase_of s = Hovering \<Longrightarrow>
     previewTime (fst (dispatch e s MouseLeave)) = Fin (- 1)
     \<and> phase_of (fst (dispatch e s MouseLeave)) = Idle"
  by (auto simp: phase_of_def onMouseLeave_def split: if_splits)

text \<open>
  C6. For a finite duration that is not negative and a container of positive width, every
  event handler preserves the invariant that a preview time other than the cleared
  sentinel \<open>-1\<close> belongs to the Hovering or the Dragging phase and is a time between \<open>0\<close>
  and the duration; so does every sequence of events, and the initial state satisfies it.
  Every transition into the Idle phase leaves the preview time cleared: the release of the
  pointer clears it and ends the drag, and the pointer leaving a hovered container clears
  it and ends the hover.
\<close>

theorem preview_invariant:
  assumes "duration e = Fin d" and "0 \<le> d" and "positive_width e" and "interaction_inv e s"
  shows "interaction_inv e (fst (dispatch e s ev))
       \<and> (previewTime (fst (dispatch e s ev)) \<noteq> Fin (- 1) \<longrightarrow>
            phase_of (fst (dispatch e s ev)) \<noteq> Idle
          \<and> (\<exists>t. previewTime (fst (dispatch e s ev)) = Fin t \<and> 0 \<le> t \<and> t \<le> d))
       \<and> interaction_inv e (fst (run e s evs))
       \<and> interaction_inv e initial_state
       \<and> (phase_of s \<noteq> Idle \<and> phase_of (fst (dispatch e s ev)) = Idle \<longrightarrow>
            previewTime (fst (dispatch e s ev)) = Fin (- 1))
       \<and> (phase_of s = Dragging \<and> is_end ev \<longrightarrow>
            previewTime (fst (dispatch e s ev)) = Fin (- 1)
          \<and> phase_of (fst (dispatch e s ev)) \<noteq> Dragging)
       \<and> (phase_of s = Hovering \<longrightarrow>
            previewTime (fst (dispatch e s MouseLeave)) = Fin (- 1)
          \<and> phase_of (fst (dispatch e s MouseLeave)) = Idle)"
proof -
  have step: "interaction_inv e (fst (dispatch e s ev))"
    using assms by (rule dispatch_interaction_inv)
  have "previewTime (fst (dispatch e s ev)) \<noteq> Fin (- 1) \<longrightarrow>
            phase_of (fst (dispatch e s ev)) \<noteq> Idle
          \<and> (\<exists>t. previewTime (fst (dispatch e s ev)) = Fin t \<and> 0 \<le> t \<and> t \<le> d)"
    using interaction_inv_bounds [OF assms(1) step] by blast
  moreover have "interaction_inv e (fst (run e s evs))"
    using assms by (rule run_interaction_inv)
  moreover have "interaction_inv e initial_state"
    by (simp add: cleared_interaction_inv initial_state_def)
  moreover have "phase_of s \<noteq> Idle \<and> phase_of (fst (dispatch e s ev)) = Idle \<longrightarrow>
            previewTime (fst (dispatch e s ev)) = Fin (- 1)"
    using to_idle_clears [of s e ev] by blast
  moreover have "phase_of s = Dragging \<and> is_end ev \<longrightarrow>
            previewTime (fst (dispatch e s ev)) = Fin (- 1)
          \<and> phase_of (fst (dispatch e s ev)) \<noteq> Dragging"
    using release_clears [of s ev e] by blast
  moreover have "phase_of s = Hovering \<longrightarrow>
            previewTime (fst (dispatch e s MouseLeave)) = Fin (- 1)
          \<and> phase_of (fst (dispatch e s MouseLeave)) = Idle"
    using leave_clears [of s e] by blast
  ultimately show ?thesis using step by blast
qed


theorem preview_invariant_witness:
  "duration demo_env = Fin 200 \<and> positive_width demo_env
   \<and> interaction_inv demo_env hovered_state
   \<and> \<not> interaction_inv demo_env (hovered_state\<lparr>previewTime := Fin (- 5)\<rparr>)
   \<and> \<not> interaction_inv demo_env (hovered_state\<lparr>previewTime := NaN\<rparr>)
   \<and> previewTime (fst (dispatch demo_env hovered_state (MouseMove 160))) = Fin 100
   \<and> interaction_inv demo_env (fst (dispatch demo_env hovered_state (MouseMove 160)))
   \<and> phase_of hovered_state = Hovering
   \<and> phase_of (fst (dispatch demo_env hovered_state MouseLeave)) = Idle
   \<and> previewTime (fst (dispatch demo_env hovered_state MouseLeave)) = Fin (- 1)
   \<and> phase_of (fst (dispatch demo_env hovered_state (MouseDown 85))) = Dragging
   \<and> previewTime (fst (dispatch demo_env hovered_state (MouseDown 85))) = Fin 50
   \<and> previewTime (fst (dispatch demo_env
        (fst (dispatch demo_env hovered_state (MouseDown 85))) DocMouseUp)) = Fin (- 1)
   \<and> phase_of (fst (dispatch demo_env
        (fst (dispatch demo_env initial_state (TouchStart [160]))) DocTouchEnd)) = Idle
   \<and> previewTime (fst (dispatch demo_env
        (fst (dispatch demo_env initial_state (TouchStart [160]))) DocTouchEnd)) = Fin (- 1)"
proof -
  let ?drag = "fst (dispatch demo_env hovered_state (MouseDown 85))"
  let ?touch = "fst (dispatch demo_env initial_state (TouchStart [160]))"
  have d: "duration demo_env = Fin 200" "(0::real) \<le> 200"
    by (simp_all add: demo_env_def)
  have w: "positive_width demo_env"
    by (simp add: positive_width_def demo_env_def)
  have i: "interaction_inv demo_env hovered_state"
    by (simp add: interaction_inv_def phase_of_def demo_env_def hovered_state_def)
  have bad: "\<not> interaction_inv demo_env (hovered_state\<lparr>previewTime := Fin (- 5)\<rparr>)"
    "\<not> interaction_inv demo_env (hovered_state\<lparr>previewTime := NaN\<rparr>)"
    by (simp_all add: interaction_inv_def)
  have t: "previewTime (fst (dispatch demo_env hovered_state (MouseMove 160))) = Fin 100"
    by (simp add: demo_env_def hovered_state_def handleMouseMove_def pixelToTime_def Let_def)
  have p: "phase_of hovered_state = Hovering"
    by (simp add: phase_of_def hovered_state_def)
  have move: "interaction_inv demo_env (fst (dispatch demo_env hovered_state (MouseMove 160)))"
    using preview_invariant [OF d w i, of "MouseMove 160"] by blast
  have leave: "previewTime (fst (dispatch demo_env hovered_state MouseLeave)) = Fin (- 1)
      \<and> phase_of (fst (dispatch demo_env hovered_state MouseLeave)) = Idle"
    using preview_invariant [OF d w i] p by blast
  have drag: "phase_of ?drag = Dragging" "previewTime ?drag = Fin 50"
    by (simp_all add: phase_of_def hovered_state_def handler_defs)
  have idrag: "interaction_inv demo_env ?drag"
    using preview_invariant [OF d w i, of "MouseDown 85"] by blast
  have up: "previewTime (fst (dispatch demo_env ?drag DocMouseUp)) = Fin (- 1)"
    using preview_invariant [OF d w idrag, of DocMouseUp] drag(1) by simp
  have touch: "phase_of ?touch = Dragging"
    by (simp add: phase_of_def handler_defs)
  have itouch: "interaction_inv demo_env ?touch"
    using preview_invariant [OF d w, of initial_state "TouchStart [160]"]
    by (simp add: cleared_interaction_inv initial_state_def)
  have idle: "phase_of (fst (dispatch demo_env ?touch DocTouchEnd)) = Idle"
    by (simp add: phase_of_def handler_defs initial_state_def)
  have tend: "previewTime (fst (dispatch demo_env ?touch DocTouchEnd)) = Fin (- 1)"
    using preview_invariant [OF d w itouch, of DocTouchEnd] touch idle by simp
  from d(1) w i bad t move p leave drag up idle tend show ?thesis by simp
qed

section \<open>The preview time during a drag\<close>

lemma dispatch_move_dragging:
  "isDragging s \<Longrightarrow> is_move ev \<Longrightarrow> fst (dispatch e s ev) = s"
  by (cases ev) (auto simp: handler_defs split: list.splits)

lemma run_moves_dragging:
  "isDragging s \<Longrightarrow> \<forall>ev\<in>set evs. is_move ev \<Longrightarrow> fst (run e s evs) = s"
proof (induction evs)
  case Nil
  then show ?case by simp
next
  case (Cons ev evs)
  then have "fst (dispatch e s ev) = s" by (simp add: dispatch_move_dragging)
  with Cons show ?case by (auto split: prod.splits)
qed

text \<open>
  C10, as the claim words it, fails: the preview time does not stay until the pointer is
  released. A hover at 50 seconds followed by a pointer-down starts a drag with the preview
  at 50 seconds; when the pointer then leaves the container, \<^verbatim>\<open>onMouseLeave\<close> (lines
  278-281) clears the preview while the drag goes on.
\<close>

theorem drag_preview_counterexample:
  "fst (run demo_env initial_state [MouseEnter, MouseMove 85]) = hovered_state
   \<and> phase_of (fst (dispatch demo_env hovered_state (MouseDown 85))) = Dragging
   \<and> previewTime (fst (dispatch demo_env hovered_state (MouseDown 85))) = Fin 50
   \<and> phase_of (fst (run demo_env hovered_state [MouseDown 85, MouseLeave])) = Dragging
   \<and> previewTime (fst (run demo_env hovered_state [MouseDown 85, MouseLeave])) = Fin (- 1)"
  by (simp add: demo_env_def initial_state_def hovered_state_def handler_defs pixelToTime_def
      phase_of_def Let_def)

text \<open>
  C10, amended. While dragging, no pointer-move event, over the container or on the
  document, changes the preview time (or anything else of the state): through every
  sequence of moves the preview time keeps the value it had when the drag began, and the
  drag goes on. The preview time is cleared by the release of the pointer, and also by the
  pointer leaving the container during the drag, which does not end the drag.
\<close>

theorem drag_moves_keep_preview:
  assumes "isDragging s" and "\<forall>ev\<in>set evs. is_move ev"
  shows "previewTime (fst (run e s evs)) = previewTime s
       \<and> isDragging (fst (run e s evs))
       \<and> previewTime (fst (run e s (evs @ [DocMouseUp]))) = Fin (- 1)
       \<and> previewTime (fst (run e s (evs @ [DocTouchEnd]))) = Fin (- 1)
       \<and> previewTime (fst (run e s (evs @ [MouseLeave]))) = Fin (- 1)
       \<and> isDragging (fst (run e s (evs @ [MouseLeave])))"
proof -
  have r: "fst (run e s evs) = s"
    using assms by (rule run_moves_dragging)
  then obtain out where "run e s evs = (s, out)" by (cases "run e s evs") simp
  then show ?thesis
    using assms(1) by (simp add: run_append handleEnd_def onMouseLeave_def)
qed

theorem drag_moves_keep_preview_witness:
  "isDragging (fst (dispatch demo_env hovered_state (MouseDown 85)))
   \<and> previewTime (fst (run demo_env (fst (dispatch demo_env hovered_state (MouseDown 85)))
        [MouseMove 160, DocMouseMove 160, DocTouchMove [310]])) = Fin 50
   \<and> previewTime (fst (run demo_env (fst (dispatch demo_env hovered_state (MouseDown 85)))
        ([MouseMove 160, DocMouseMove 160, DocTouchMove [310]] @ [DocMouseUp]))) = Fin (- 1)"
proof -
  let ?s = "fst (dispatch demo_env hovered_state (MouseDown 85))"
  have g: "isDragging ?s" by (simp add: handler_defs)
  have m: "\<forall>ev\<in>set [MouseMove 160, DocMouseMove 160, DocTouchMove [310]]. is_move ev" by simp
  have p: "previewTime ?s = Fin 50" by (simp add: handler_defs hovered_state_def)
  from drag_moves_keep_preview [OF g m, of demo_env] g p show ?thesis by simp
qed

section \<open>Properties of the bar colours\<close>

lemma spec_progressOf_id:
  assumes "0 \<le> t" and "t \<le> d"
  shows "spec_progressOf t d = (if 0 < d then t / d else 0)"
  using assms by (simp add: spec_progressOf_def spec_clamp01_id)

text \<open>The colour of a bar for a finite time and duration, on reals.\<close>

lemma bar_fill_finite:
  assumes "0 < n"
  shows "bar_fill (Fin c) (Fin d) pt index n =
     (let progress = (if 0 < d then c / d else 0);
          p = real index / real n
      in if (case pt of Fin t \<Rightarrow> 0 < d \<and> 0 \<le> t \<and> p \<le> t / d | PInf \<Rightarrow> 0 < d | _ \<Rightarrow> False)
            \<and> progress < p
         then PreviewHighlight
         else if p \<le> progress then Played (Fin (spec_intensity progress p))
         else Unplayed)"
  using assms
  by (cases pt)
    (auto simp: bar_fill_def progressOf_def hoverProgressOf_def js_gt_def js_ge_def js_sub_def
      spec_intensity_def Let_def)

lemma bar_fill_refines:
  assumes d: "0 \<le> d" and c: "0 \<le> c" "c \<le> d"
    and inv: "preview_inv \<lparr>duration = Fin d, container = r\<rparr> s"
    and n: "index < n"
  shows "bar_fill (Fin c) (Fin d) (previewTime s) index n =
           spec_bar_style (phase_of s \<noteq> Idle) (preview_of s) c d (real index / real n)"
proof -
  from n have n0: "0 < n" by simp
  show ?thesis
  proof (cases "previewTime s")
    case (Fin t)
    show ?thesis
    proof (cases "0 \<le> t")
      case True
      with inv Fin have act: "phase_of s \<noteq> Idle" and td: "t \<le> d"
        by (simp_all add: preview_inv_def preview_defined_def js_ge_def)
      show ?thesis
        using Fin True act td c d
        by (simp add: bar_fill_finite [OF n0] spec_bar_style_def preview_of_def
            spec_progressOf_id Let_def)
    next
      case False
      then show ?thesis
        using Fin c d
        by (simp add: bar_fill_finite [OF n0] spec_bar_style_def preview_of_def
            spec_progressOf_id Let_def)
    qed
  next
    case PInf
    with inv show ?thesis
      by (simp add: preview_inv_def preview_defined_def js_ge_def)
  next
    case NInf
    then show ?thesis
      using c d
      by (simp add: bar_fill_finite [OF n0] spec_bar_style_def preview_of_def
          spec_progressOf_id Let_def)
  next
    case NaN
    then show ?thesis
      using c d
      by (simp add: bar_fill_finite [OF n0] spec_bar_style_def preview_of_def
          spec_progressOf_id Let_def)
  qed
qed

lemma spec_intensity_mono:
  "p1 \<le> p2 \<Longrightarrow> spec_intensity progress p2 \<le> spec_intensity progress p1"
  by (simp add: spec_intensity_def min_def)

lemma scenario_fill:
  assumes "index < n"
  shows "bar_fill (Fin 50) (Fin 200) (Fin (- 1)) index n =
     (if real index / real n \<le> 0.25
      then Played (Fin (spec_intensity 0.25 (real index / real n)))
      else Unplayed)"
proof -
  from assms have "0 < n" by simp
  then show ?thesis by (simp add: bar_fill_finite Let_def)
qed

lemma scenario_render:
  assumes "waveformData \<noteq> []"
  shows "drawWaveform_fills True waveformData (Fin 50) (Fin 200) (Fin (- 1)) =
     Some (map (\<lambda>i. if real i / real (length waveformData) \<le> 0.25
                     then Played (Fin (spec_intensity 0.25 (real i / real (length waveformData))))
                     else Unplayed)
             [0 ..< length waveformData])"
  using assms by (simp add: drawWaveform_fills_def scenario_fill)

text \<open>
  C7. For a playback time between \<open>0\<close> and the duration, and an interaction state that
  satisfies its invariant, \<^verbatim>\<open>drawWaveform\<close> gives the bar \<open>index\<close> of \<open>n\<close> the style of the
  specification's rule at \<open>p = index / n\<close>: the preview highlight iff the widget is hovered
  or dragged, the preview time is defined and \<open>progress < p \<le> hoverProgress\<close>; otherwise the
  played style iff \<open>p \<le> progress\<close>, with intensity \<open>min(1, (progress - p) * 10 + 0.6)\<close>;
  otherwise the unplayed style. The intensity does not decrease as \<open>p\<close> falls further behind
  the progress. For a duration of 200, a time of 50 and no preview, the bars with
  \<open>p \<le> 0.25\<close> are played and the others unplayed, for one bar and for a whole render.
\<close>

theorem bar_colouring:
  assumes "duration e = Fin d" and "preview_inv e s" and "0 \<le> c" and "c \<le> d"
    and "index < n"
  shows "bar_fill (Fin c) (duration e) (previewTime s) index n =
           spec_bar_style (phase_of s \<noteq> Idle) (preview_of s) c d (real index / real n)
       \<and> (p1 \<le> p2 \<longrightarrow> spec_intensity progress p2 \<le> spec_intensity progress p1)
       \<and> bar_fill (Fin 50) (Fin 200) (Fin (- 1)) index n =
           (if real index / real n \<le> 0.25
            then Played (Fin (spec_intensity 0.25 (real index / real n)))
            else Unplayed)
       \<and> (waveformData \<noteq> [] \<longrightarrow>
            drawWaveform_fills True waveformData (Fin 50) (Fin 200) (Fin (- 1)) =
              Some (map (\<lambda>i. if real i / real (length waveformData) \<le> 0.25
                              then Played (Fin (spec_intensity 0.25
                                     (real i / real (length waveformData))))
                              else Unplayed)
                      [0 ..< length waveformData]))"
proof -
  from assms(3,4) have d: "0 \<le> d" by simp
  have "e = \<lparr>duration = Fin d, container = container e\<rparr>"
    using assms(1) by (cases e) simp
  with assms(2) have "preview_inv \<lparr>duration = Fin d, container = container e\<rparr> s" by simp
  from bar_fill_refines [OF d assms(3,4) this assms(5)] assms(1)
  have "bar_fill (Fin c) (duration e) (previewTime s) index n =
           spec_bar_style (phase_of s \<noteq> Idle) (preview_of s) c d (real index / real n)"
    by simp
  then show ?thesis
    using spec_intensity_mono [of p1 p2 progress] scenario_fill [OF assms(5)]
      scenario_render [of waveformData]
    by simp
qed

theorem bar_colouring_witness:
  "preview_inv demo_env hovered_state
   \<and> bar_fill (Fin 20) (duration demo_env) (previewTime hovered_state) 1 10 = Played (Fin 0.6)
   \<and> bar_fill (Fin 20) (duration demo_env) (previewTime hovered_state) 2 10 = PreviewHighlight
   \<and> bar_fill (Fin 20) (duration demo_env) (previewTime hovered_state) 5 10 = Unplayed
   \<and> bar_fill (Fin 50) (Fin 200) (Fin (- 1)) 37 150 = Played (Fin (19 / 30))
   \<and> bar_fill (Fin 50) (Fin 200) (Fin (- 1)) 38 150 = Unplayed"
proof -
  have d: "duration demo_env = Fin 200" by (simp add: demo_env_def)
  have i: "preview_inv demo_env hovered_state"
    by (simp add: preview_inv_def preview_defined_def phase_of_def demo_env_def
        hovered_state_def js_ge_def)
  have c: "(0::real) \<le> 20" "(20::real) \<le> 200" by simp_all
  have s: "spec_bar_style (phase_of hovered_state \<noteq> Idle) (preview_of hovered_state) 20 200
             (real 1 / real 10) = Played (Fin 0.6)"
    "spec_bar_style (phase_of hovered_state \<noteq> Idle) (preview_of hovered_state) 20 200
             (real 2 / real 10) = PreviewHighlight"
    "spec_bar_style (phase_of hovered_state \<noteq> Idle) (preview_of hovered_state) 20 200
             (real 5 / real 10) = Unplayed"
    by (simp_all add: spec_bar_style_def spec_progressOf_def spec_clamp01_def spec_intensity_def
        phase_of_def preview_of_def hovered_state_def)
  have "bar_fill (Fin 20) (duration demo_env) (previewTime hovered_state) 1 10 = Played (Fin 0.6)"
    using bar_colouring [OF d i c, of 1 10] s(1) by simp
  moreover
  have "bar_fill (Fin 20) (duration demo_env) (previewTime hovered_state) 2 10 = PreviewHighlight"
    using bar_colouring [OF d i c, of 2 10] s(2) by simp
  moreover
  have "bar_fill (Fin 20) (duration demo_env) (previewTime hovered_state) 5 10 = Unplayed"
    using bar_colouring [OF d i c, of 5 10] s(3) by simp
  moreover
  have "bar_fill (Fin 50) (Fin 200) (Fin (- 1)) 37 150 = Played (Fin (19 / 30))"
    using bar_colouring [OF d i c, of 37 150] by (simp add: spec_intensity_def)
  moreover
  have "bar_fill (Fin 50) (Fin 200) (Fin (- 1)) 38 150 = Unplayed"
    using bar_colouring [OF d i c, of 38 150] by simp
  ultimately show ?thesis using i by simp
qed

end
